theory Spec2Isabelle
  imports Main "HOL-Library.Log_Nat"
begin

section \<open>Numbers\<close>

text \<open>
  Every \<^verbatim>\<open>number\<close> of the controller is an IEEE 754 binary64 value. A finite one is
  modelled by the rational it denotes, and every arithmetic operation of the source is
  the exact operation followed by rounding to the nearest value with a 53 bit
  significand, ties to the even significand. The exponent range is not bounded in the
  model (no overflow to Infinity, no gradual underflow): the watermark generator only
  forms quotients, products and sums of the image dimensions, of the constants
  5, 20, 24, 3, 2, 360 and of draws from [0, 1), which stay inside the binary64 range
  for all dimensions a decoded image can have.
\<close>

type_synonym number = rat

definition pow2 :: "int \<Rightarrow> rat" where
  "pow2 p = (if 0 \<le> p then 2 ^ nat p else 1 / 2 ^ nat (- p))"

text \<open>The binary exponent of a positive rational: the \<open>e\<close> with \<open>2^e \<le> x < 2^(e+1)\<close>.\<close>

definition ilog2 :: "rat \<Rightarrow> int" where
  "ilog2 x = (if 1 \<le> x then bitlen \<lfloor>x\<rfloor> - 1 else - bitlen (\<lceil>1 / x\<rceil> - 1))"

text \<open>Rounding to the nearest integer, a tie going to the even neighbour.\<close>

definition rhe :: "rat \<Rightarrow> int" where
  "rhe x = (let f = \<lfloor>x\<rfloor>; d = x - of_int f in
     if d < 1 / 2 then f else if 1 / 2 < d then f + 1 else if even f then f else f + 1)"

definition rnd :: "rat \<Rightarrow> number" where
  "rnd x = (if x = 0 then 0 else
     let p = ilog2 \<bar>x\<bar> - 52 in of_int (rhe (x / pow2 p)) * pow2 p)"

definition is_double :: "rat \<Rightarrow> bool" where
  "is_double x = (rnd x = x)"

definition fadd :: "number \<Rightarrow> number \<Rightarrow> number" where
  "fadd a b = rnd (a + b)"

definition fmul :: "number \<Rightarrow> number \<Rightarrow> number" where
  "fmul a b = rnd (a * b)"

definition fdiv :: "number \<Rightarrow> number \<Rightarrow> number" where
  "fdiv a b = rnd (a / b)"

section \<open>The watermark overlay\<close>

text \<open>
  \<^verbatim>\<open>createWatermarkSVG\<close> appends one \<^verbatim>\<open><text>\<close> element to \<^verbatim>\<open>svgContent\<close> per loop
  iteration. The markup is modelled by its structure: the attributes of the root
  element and the sequence of text elements, each with the attributes the template
  literal writes.
\<close>

datatype paint = Rgba nat nat nat rat

datatype transform = Rotate number | RotateAbout number number number

record text_element =
  attr_x :: number
  attr_y :: number
  font_size :: number
  font_family :: string
  fill :: paint
  transform :: "transform option"
  content :: string

record svg =
  svg_width :: number
  svg_height :: number
  svg_children :: "text_element list"

datatype error = Error string

fun opacity :: "text_element \<Rightarrow> rat" where
  "opacity e = (case fill e of Rgba r g b a \<Rightarrow> a)"

fun rotationDegrees :: "text_element \<Rightarrow> number" where
  "rotationDegrees e =
     (case transform e of None \<Rightarrow> 0 | Some (Rotate a) \<Rightarrow> a | Some (RotateAbout a cx cy) \<Rightarrow> a)"

definition diagonal_text :: "number \<Rightarrow> string \<Rightarrow> number \<Rightarrow> number \<Rightarrow> text_element" where
  "diagonal_text fontSize rawWatermarkText x y =
     \<lparr>attr_x = x, attr_y = y, font_size = fontSize, font_family = ''Arial'',
      fill = Rgba 255 255 255 (3 / 10), transform = Some (Rotate (- 30)),
      content = rawWatermarkText\<rparr>"

definition grid_text :: "number \<Rightarrow> string \<Rightarrow> number \<Rightarrow> number \<Rightarrow> text_element" where
  "grid_text fontSize rawWatermarkText x y =
     \<lparr>attr_x = x, attr_y = y, font_size = fontSize, font_family = ''Arial'',
      fill = Rgba 255 255 255 (3 / 10), transform = None,
      content = rawWatermarkText\<rparr>"

definition scattered_text ::
  "number \<Rightarrow> string \<Rightarrow> number \<Rightarrow> number \<Rightarrow> number \<Rightarrow> text_element" where
  "scattered_text fontSize rawWatermarkText x y rotation =
     \<lparr>attr_x = x, attr_y = y, font_size = fontSize, font_family = ''Arial'',
      fill = Rgba 255 255 255 (3 / 10), transform = Some (RotateAbout rotation x y),
      content = rawWatermarkText\<rparr>"

text \<open>
  The loops \<^verbatim>\<open>for (let x = x0; x < limit; x += step)\<close> of the diagonal and the grid
  style. Nothing in the loop bounds the number of iterations, so a loop that does not
  return has the value \<open>None\<close>.
\<close>

partial_function (option) for_x ::
  "(number \<Rightarrow> text_element) \<Rightarrow> number \<Rightarrow> number \<Rightarrow> number \<Rightarrow>
   text_element list \<Rightarrow> text_element list option" where
  "for_x mk x' limit step svgContent =
     (if x' < limit then for_x mk (fadd x' step) limit step (svgContent @ [mk x'])
      else Some svgContent)"

partial_function (option) for_y ::
  "(number \<Rightarrow> number \<Rightarrow> text_element) \<Rightarrow> number \<Rightarrow> number \<Rightarrow> number \<Rightarrow>
   number \<Rightarrow> number \<Rightarrow> number \<Rightarrow> text_element list \<Rightarrow> text_element list option" where
  "for_y mk x0 xlimit xstep y ylimit ystep svgContent =
     (if y < ylimit then
        Option.bind (for_x (\<lambda>x. mk x y) x0 xlimit xstep svgContent)
          (\<lambda>s. for_y mk x0 xlimit xstep (fadd y ystep) ylimit ystep s)
      else Some svgContent)"

declare for_x.simps [code] for_y.simps [code]

text \<open>
  \<^verbatim>\<open>Math.random()\<close>: the ambient generator is the sequence of the values it is going to
  return; a call takes the first and leaves the rest.
\<close>

type_synonym rng = "nat \<Rightarrow> number"

definition Math_random :: "rng \<Rightarrow> number \<times> rng" where
  "Math_random g = (g 0, \<lambda>i. g (Suc i))"

definition numWatermarks :: nat where
  "numWatermarks = 50"

function scattered_loop ::
  "number \<Rightarrow> number \<Rightarrow> number \<Rightarrow> string \<Rightarrow> nat \<Rightarrow> rng \<Rightarrow>
   text_element list \<Rightarrow> text_element list" where
  "scattered_loop width height fontSize rawWatermarkText i g svgContent =
     (if i < numWatermarks then
        (let (r1, g1) = Math_random g; x = fmul r1 width;
             (r2, g2) = Math_random g1; y = fmul r2 height;
             (r3, g3) = Math_random g2; rotation = fmul r3 360
         in scattered_loop width height fontSize rawWatermarkText (i + 1) g3
              (svgContent @ [scattered_text fontSize rawWatermarkText x y rotation]))
      else svgContent)"
  by pat_completeness auto
termination
  by (relation "measure (\<lambda>(width, height, fontSize, rawWatermarkText, i, g, svgContent).
        numWatermarks - i)") (auto simp: Math_random_def)

declare scattered_loop.simps [simp del]

definition fontSize_of :: "number \<Rightarrow> number" where
  "fontSize_of width = max (fdiv width 20) 24"

definition createWatermarkSVG ::
  "rng \<Rightarrow> string \<Rightarrow> number \<Rightarrow> number \<Rightarrow> string \<Rightarrow> (error + svg) option" where
  "createWatermarkSVG g rawWatermarkText width height style =
     (let fontSize = fontSize_of width in
      if style = ''diagonal'' then
        (let diagonalSpacing = fmul fontSize 3 in
         map_option (\<lambda>c. Inr \<lparr>svg_width = width, svg_height = height, svg_children = c\<rparr>)
           (for_y (diagonal_text fontSize rawWatermarkText)
              (- width) (fmul width 2) diagonalSpacing
              (- height) (fmul height 2) diagonalSpacing []))
      else if style = ''grid'' then
        (let gridSpacingX = fdiv width 5; gridSpacingY = fdiv height 5 in
         map_option (\<lambda>c. Inr \<lparr>svg_width = width, svg_height = height, svg_children = c\<rparr>)
           (for_y (grid_text fontSize rawWatermarkText)
              0 width gridSpacingX 0 height gridSpacingY []))
      else if style = ''scattered'' then
        Some (Inr \<lparr>svg_width = width, svg_height = height,
                   svg_children = scattered_loop width height fontSize rawWatermarkText 0 g []\<rparr>)
      else Some (Inl (Error ''Invalid watermark style'')))"

section \<open>Requests, the file store and the image library\<close>

text \<open>
  The descriptor multer attaches to the request, the two parameter sources of a request
  and the JavaScript operators the handlers apply to them. A parameter is absent
  (\<^verbatim>\<open>undefined\<close>) or a string; the only falsy strings are the empty ones.
\<close>

record upload =
  originalname :: string
  filename :: string
  path :: string

record request =
  req_file :: "upload option"
  query :: "string \<Rightarrow> string option"
  body :: "string \<Rightarrow> string option"

definition truthy :: "string option \<Rightarrow> bool" where
  "truthy v = (case v of None \<Rightarrow> False | Some s \<Rightarrow> s \<noteq> [])"

text \<open>\<^verbatim>\<open>a || b\<close> on parameters, and \<^verbatim>\<open>a || 'literal'\<close>.\<close>

definition or_else :: "string option \<Rightarrow> string option \<Rightarrow> string option" where
  "or_else a b = (if truthy a then a else b)"

definition or_default :: "string option \<Rightarrow> string \<Rightarrow> string" where
  "or_default a d = (case a of None \<Rightarrow> d | Some s \<Rightarrow> if s \<noteq> [] then s else d)"

text \<open>
  The numbers a handler holds: \<^verbatim>\<open>NaN\<close>, a finite binary64 value, or an infinity.
  \<^verbatim>\<open>parseInt(v, 10)\<close> converts its argument to a string (\<^verbatim>\<open>undefined\<close> becomes
  \<^verbatim>\<open>"undefined"\<close>, which has no digit), skips the leading white space and line
  terminators of ECMAScript, reads a sign, then the longest run of decimal digits; no
  digit gives \<^verbatim>\<open>NaN\<close>. The integer read is rounded to binary64, and to an infinity from
  \<open>2^1024\<close> on. Strings are sequences of UTF-8 bytes, so the white space characters
  beyond ASCII (U+00A0, U+1680, U+2000 to U+200A, U+2028, U+2029, U+202F, U+205F,
  U+3000, U+FEFF) are the byte sequences that encode them.
\<close>

datatype jsnum = NaN | Finite number | PosInfinity | NegInfinity

definition white_space :: "string list" where
  "white_space =
     [[CHR 0x09], [CHR 0x0A], [CHR 0x0B], [CHR 0x0C], [CHR 0x0D], [CHR 0x20],
      [CHR 0xC2, CHR 0xA0], [CHR 0xE1, CHR 0x9A, CHR 0x80],
      [CHR 0xE2, CHR 0x80, CHR 0x80], [CHR 0xE2, CHR 0x80, CHR 0x81],
      [CHR 0xE2, CHR 0x80, CHR 0x82], [CHR 0xE2, CHR 0x80, CHR 0x83],
      [CHR 0xE2, CHR 0x80, CHR 0x84], [CHR 0xE2, CHR 0x80, CHR 0x85],
      [CHR 0xE2, CHR 0x80, CHR 0x86], [CHR 0xE2, CHR 0x80, CHR 0x87],
      [CHR 0xE2, CHR 0x80, CHR 0x88], [CHR 0xE2, CHR 0x80, CHR 0x89],
      [CHR 0xE2, CHR 0x80, CHR 0x8A], [CHR 0xE2, CHR 0x80, CHR 0xA8],
      [CHR 0xE2, CHR 0x80, CHR 0xA9], [CHR 0xE2, CHR 0x80, CHR 0xAF],
      [CHR 0xE2, CHR 0x81, CHR 0x9F], [CHR 0xE3, CHR 0x80, CHR 0x80],
      [CHR 0xEF, CHR 0xBB, CHR 0xBF]]"

function trimStart :: "string \<Rightarrow> string" where
  "trimStart s =
     (case find (\<lambda>ws. take (length ws) s = ws) white_space of
        None \<Rightarrow> s
      | Some ws \<Rightarrow> trimStart (drop (length ws) s))"
  by pat_completeness auto
termination
proof (relation "measure length")
  show "wf (measure length)" by simp
next
  fix s ws :: string
  assume "find (\<lambda>ws. take (length ws) s = ws) white_space = Some ws"
  then have p: "take (length ws) s = ws" and m: "ws \<in> set white_space"
    by (auto simp: find_Some_iff)
  from m have "ws \<noteq> []" by (auto simp: white_space_def)
  moreover have "length (take (length ws) s) \<le> length s" by simp
  then have "length ws \<le> length s" by (simp only: p)
  ultimately show "(drop (length ws) s, s) \<in> measure length"
    by (cases ws) simp_all
qed

declare trimStart.simps [simp del]

definition is_digit :: "char \<Rightarrow> bool" where
  "is_digit c = (48 \<le> (of_char c :: nat) \<and> (of_char c :: nat) \<le> 57)"

definition digits_value :: "string \<Rightarrow> int" where
  "digits_value ds = foldl (\<lambda>a c. 10 * a + (int (of_char c) - 48)) 0 ds"

definition to_number :: "int \<Rightarrow> jsnum" where
  "to_number n =
     (let r = rnd (of_int n) in
      if r \<noteq> 0 \<and> 1024 \<le> ilog2 \<bar>r\<bar> then (if 0 < r then PosInfinity else NegInfinity)
      else Finite r)"

definition parse_digits :: "int \<Rightarrow> string \<Rightarrow> jsnum" where
  "parse_digits sign s =
     (let ds = takeWhile is_digit s in
      if ds = [] then NaN else to_number (sign * digits_value ds))"

definition parseInt :: "string option \<Rightarrow> jsnum" where
  "parseInt v =
     (case v of
        None \<Rightarrow> NaN
      | Some s \<Rightarrow>
          (case trimStart s of
             [] \<Rightarrow> NaN
           | c # cs \<Rightarrow>
               if c = CHR ''-'' then parse_digits (- 1) cs
               else if c = CHR ''+'' then parse_digits 1 cs
               else parse_digits 1 (c # cs)))"

definition isNaN :: "jsnum \<Rightarrow> bool" where
  "isNaN n = (n = NaN)"

text \<open>\<^verbatim>\<open>n <= 0\<close>, false on \<^verbatim>\<open>NaN\<close>, and \<^verbatim>\<open>!n\<close>, true on zero and on \<^verbatim>\<open>NaN\<close>.\<close>

definition le_zero :: "jsnum \<Rightarrow> bool" where
  "le_zero n =
     (case n of NaN \<Rightarrow> False | Finite v \<Rightarrow> v \<le> 0 | PosInfinity \<Rightarrow> False
      | NegInfinity \<Rightarrow> True)"

definition not_num :: "jsnum \<Rightarrow> bool" where
  "not_num n =
     (case n of NaN \<Rightarrow> True | Finite v \<Rightarrow> v = 0 | PosInfinity \<Rightarrow> False
      | NegInfinity \<Rightarrow> False)"

text \<open>\<^verbatim>\<open>String.prototype.includes\<close> and \<^verbatim>\<open>toLowerCase\<close> (on the ASCII letters).\<close>

fun str_includes :: "string \<Rightarrow> string \<Rightarrow> bool" where
  "str_includes [] t = (t = [])"
| "str_includes (c # s) t = (take (length t) (c # s) = t \<or> str_includes s t)"

definition toLowerCase :: "string \<Rightarrow> string" where
  "toLowerCase s =
     map (\<lambda>c. if 65 \<le> (of_char c :: nat) \<and> (of_char c :: nat) \<le> 90
              then char_of ((of_char c :: nat) + 32) else c) s"

text \<open>The decimal text of an integer inside a template literal (\<^verbatim>\<open>Date.now()\<close>).\<close>

function decimal :: "int \<Rightarrow> string" where
  "decimal n =
     (if n < 0 then CHR ''-'' # decimal (- n)
      else if n < 10 then [char_of (48 + n)]
      else decimal (n div 10) @ [char_of (48 + n mod 10)])"
  by pat_completeness auto
termination
  by (relation "measure (\<lambda>n. if n < 0 then nat (- n) + 1 else nat n)") auto

declare decimal.simps [simp del]

text \<open>
  What a handler asks of the sharp library, and what the surroundings of one request
  answer: \<^verbatim>\<open>path.resolve\<close>, the clock, the decoded metadata of a file (or the error
  thrown), the outcome of a pipeline that ends in \<^verbatim>\<open>toFile\<close> (\<open>None\<close> when the file
  is written, the error thrown otherwise) and the random generator.
\<close>

datatype sharp_op =
    Resize jsnum jsnum
  | Extract jsnum jsnum jsnum jsnum
  | Grayscale
  | Blur nat
  | Composite svg

record world =
  resolve :: "string \<Rightarrow> string"
  now :: int
  sharp_metadata :: "string \<Rightarrow> error + int \<times> int"
  sharp_toFile :: "sharp_op \<Rightarrow> string \<Rightarrow> string \<Rightarrow> error option"
  random :: rng

text \<open>
  A handler run is the sequence of its effects: the awaited
  \<^verbatim>\<open>deleteFileFromServer\<close> (whose own failure is logged and swallowed), the same call
  not awaited, a completed \<^verbatim>\<open>toFile\<close> and the response.
\<close>

datatype payload = Text string | Json "(string \<times> string) list"

datatype effect =
    Unlink string
  | UnlinkNoWait string
  | ToFile sharp_op string string
  | Respond nat payload

section \<open>The handlers\<close>

definition resizeImage :: "world \<Rightarrow> request \<Rightarrow> effect list" where
  "resizeImage w req =
     (let width = parseInt (query req ''width'');
          height = parseInt (query req ''height'')
      in case req_file req of
           None \<Rightarrow> [Respond 400 (Text ''No file uploaded'')]
         | Some f \<Rightarrow>
             if isNaN width \<or> isNaN height \<or> le_zero width \<or> le_zero height then
               [Unlink (path f),
                Respond 400 (Json [(''message'',
                  ''Please specify valid positive values for width and height.'')])]
             else if not_num width \<and> not_num height then
               [Unlink (path f),
                Respond 400 (Json [(''message'',
                  ''The width and height parameters are required'')])]
             else
               (let newFilePath = resolve w (''./src/images/resized-'' @ filename f) in
                case sharp_toFile w (Resize width height) (path f) newFilePath of
                  None \<Rightarrow>
                    [ToFile (Resize width height) (path f) newFilePath,
                     Unlink (path f),
                     Respond 200 (Json [(''message'', ''Image resized successfully!''),
                                        (''path'', newFilePath)])]
                | Some e \<Rightarrow> [Respond 500 (Text ''Error processing image.'')]))"

definition cropImage :: "world \<Rightarrow> request \<Rightarrow> effect list" where
  "cropImage w req =
     (let cropX = parseInt (or_else (query req ''cropX'') (body req ''cropX''));
          cropY = parseInt (or_else (query req ''cropY'') (body req ''cropY''));
          cropWidth = parseInt (or_else (query req ''cropWidth'') (body req ''cropWidth''));
          cropHeight = parseInt (or_else (query req ''cropHeight'') (body req ''cropHeight''))
      in case req_file req of
           None \<Rightarrow> [Respond 400 (Text ''No file uploaded'')]
         | Some f \<Rightarrow>
             if isNaN cropWidth \<or> isNaN cropHeight \<or> le_zero cropWidth \<or> le_zero cropHeight
             then
               [Unlink (path f),
                Respond 400 (Json [(''message'',
                  ''Please specify valid positive values for cropWidth and cropHeight.'')])]
             else
               (let newFilePath = resolve w (''./src/images/cropped-'' @ filename f) in
                case sharp_toFile w (Extract cropWidth cropHeight cropX cropY) (path f)
                       newFilePath of
                  None \<Rightarrow>
                    [ToFile (Extract cropWidth cropHeight cropX cropY) (path f) newFilePath,
                     Unlink (path f),
                     Respond 200 (Json [(''message'', ''Image cropped successfully!''),
                                        (''path'', newFilePath)])]
                | Some (Error message) \<Rightarrow>
                    if str_includes message ''extract_area: bad extract area'' then
                      [UnlinkNoWait (path f),
                       Respond 400 (Text
                         ''Invalid crop parameters. Please check the coordinates and dimensions.'')]
                    else
                      [UnlinkNoWait (path f),
                       Respond 500 (Text ''Error processing image.'')]))"

definition filterImage :: "world \<Rightarrow> request \<Rightarrow> effect list" where
  "filterImage w req =
     (case req_file req of
        None \<Rightarrow> [Respond 400 (Text ''No file uploaded'')]
      | Some f \<Rightarrow>
          (let filter = or_else (query req ''filter'') (body req ''filter'') in
           if \<not> truthy filter then
             [Unlink (path f), Respond 400 (Text ''Please specify a filter (grayscale or blur)'')]
           else
             (case sharp_metadata w (path f) of
                Inl e \<Rightarrow> [Unlink (path f), Respond 500 (Text ''Error processing image.'')]
              | Inr metadata \<Rightarrow>
                  (let outputPath = resolve w (''./src/images/filtered-'' @ originalname f);
                       name = or_default filter [];
                       lower = toLowerCase name
                   in if lower = ''grayscale'' \<or> lower = ''blur'' then
                        (let processedImage = (if lower = ''grayscale'' then Grayscale else Blur 20) in
                         case sharp_toFile w processedImage (path f) outputPath of
                           None \<Rightarrow>
                             [ToFile processedImage (path f) outputPath,
                              Unlink (path f),
                              Respond 200 (Json [(''message'', ''Image filtered successfully!''),
                                                 (''path'', outputPath), (''filter'', name)])]
                         | Some e \<Rightarrow>
                             [Unlink (path f), Respond 500 (Text ''Error processing image.'')])
                      else
                        [Unlink (path f),
                         Respond 400 (Json [(''message'',
                           ''Invalid filter. Supported filters are grayscale and blur.'')])]))))"

definition processing_failed :: "upload \<Rightarrow> error \<Rightarrow> effect list" where
  "processing_failed f e =
     (case e of Error message \<Rightarrow>
        [Unlink (path f),
         Respond 500 (Json [(''error'', ''Error processing image''), (''details'', message)])])"

definition waterMarkImage :: "world \<Rightarrow> request \<Rightarrow> effect list option" where
  "waterMarkImage w req =
     (case req_file req of
        None \<Rightarrow> Some [Respond 400 (Json [(''error'', ''No file uploaded'')])]
      | Some f \<Rightarrow>
          if \<not> truthy (query req ''watermark'') \<and> \<not> truthy (body req ''watermark'') then
            Some [Unlink (path f),
                  Respond 400 (Json [(''message'', ''Watermark text is required'')])]
          else
            (let rawWatermarkText =
                   or_default (or_else (query req ''watermark'') (body req ''watermark''))
                     ''Watermark'';
                 watermarkStyle = or_default (query req ''style'') ''diagonal''
             in case sharp_metadata w (path f) of
                  Inl e \<Rightarrow> Some (processing_failed f e)
                | Inr (width, height) \<Rightarrow>
                    (let outputFilename =
                           ''watermarked-'' @ decimal (now w) @ ''-'' @ originalname f;
                         outputPath = resolve w (''./src/images/'' @ outputFilename)
                     in case createWatermarkSVG (random w) rawWatermarkText
                               (of_int width) (of_int height) watermarkStyle of
                          None \<Rightarrow> None
                        | Some (Inl e) \<Rightarrow> Some (processing_failed f e)
                        | Some (Inr overlay) \<Rightarrow>
                            (case sharp_toFile w (Composite overlay) (path f) outputPath of
                               Some e \<Rightarrow> Some (processing_failed f e)
                             | None \<Rightarrow>
                                 Some [ToFile (Composite overlay) (path f) outputPath,
                                       Unlink (path f),
                                       Respond 200
                                         (Json [(''message'', ''Image watermarked successfully!''),
                                                (''path'', outputPath),
                                                (''filename'', outputFilename),
                                                (''style'', watermarkStyle)])]))))"

section \<open>Parameter resolution as the specification words it\<close>

text \<open>
  ``Accept a parameter from either of two request locations, with query taking
  precedence'': the value supplied for a key is the query value when there is a
  non-empty one and the body value otherwise.
\<close>

definition supplied :: "request \<Rightarrow> string \<Rightarrow> string option" where
  "supplied req key =
     (case query req key of
        None \<Rightarrow> body req key
      | Some v \<Rightarrow> if v \<noteq> [] then Some v else body req key)"

section \<open>The layouts and the crop region as the specification words them\<close>


text \<open>A random source over [0, 1): every draw is a binary64 value of that interval.\<close>

definition unit_draws :: "rng \<Rightarrow> bool" where
  "unit_draws g = (\<forall>i. is_double (g i) \<and> 0 \<le> g i \<and> g i < 1)"

definition in_canvas :: "number \<Rightarrow> number \<Rightarrow> text_element \<Rightarrow> bool" where
  "in_canvas width height e =
     (0 \<le> attr_x e \<and> attr_x e < width \<and> 0 \<le> attr_y e \<and> attr_y e < height \<and>
      0 \<le> rotationDegrees e \<and> rotationDegrees e < 360 \<and> opacity e = 3 / 10)"


section \<open>The extract operation of the image library\<close>






section \<open>Sample surroundings and requests\<close>

text \<open>
  The concrete inputs at which the theorems below are instantiated: an upload named
  \<^verbatim>\<open>cat.png\<close> of 100 by 100 pixels, a library that succeeds, and a second upload of a
  file with the same original name.
\<close>

definition sample_world :: world where
  "sample_world =
     \<lparr>resolve = (\<lambda>p. ''/app/'' @ p), now = 1730000000123,
      sharp_metadata = (\<lambda>p. Inr (100, 100)),
      sharp_toFile = (\<lambda>operation src dst. None),
      random = (\<lambda>i. 1 / 2)\<rparr>"



definition first_upload :: upload where
  "first_upload =
     \<lparr>originalname = ''cat.png'', filename = ''image-1730000000001-111.png'',
      path = ''/app/src/images/image-1730000000001-111.png''\<rparr>"

definition second_upload :: upload where
  "second_upload =
     \<lparr>originalname = ''cat.png'', filename = ''image-1730000000002-222.png'',
      path = ''/app/src/images/image-1730000000002-222.png''\<rparr>"

definition sample_request ::
  "upload \<Rightarrow> (string \<times> string) list \<Rightarrow> (string \<times> string) list \<Rightarrow> request" where
  "sample_request f q b = \<lparr>req_file = Some f, query = map_of q, body = map_of b\<rparr>"

definition grid100 :: "string \<Rightarrow> svg" where
  "grid100 t =
     \<lparr>svg_width = 100, svg_height = 100,
      svg_children = concat (map (\<lambda>y. map (\<lambda>x. grid_text 24 t x y)
         [0, 20, 40, 60, 80]) [0, 20, 40, 60, 80])\<rparr>"

definition diagonal100 :: "string \<Rightarrow> svg" where
  "diagonal100 t =
     \<lparr>svg_width = 100, svg_height = 100,
      svg_children = concat (map (\<lambda>y. map (\<lambda>x. diagonal_text 24 t x y)
         [- 100, - 28, 44, 116, 188]) [- 100, - 28, 44, 116, 188])\<rparr>"

section \<open>Properties of the overlay loops\<close>

lemma for_x_list_all_aux:
  "for_x mk x limit step acc = Some r \<Longrightarrow>
   list_all Q acc \<longrightarrow> (\<forall>a. Q (mk a)) \<longrightarrow> list_all Q r"
  by (erule for_x.raw_induct[rotated]) (auto split: if_splits)

lemma for_x_list_all:
  "for_x mk x limit step acc = Some r \<Longrightarrow> list_all Q acc \<Longrightarrow> (\<And>a. Q (mk a)) \<Longrightarrow>
   list_all Q r"
  using for_x_list_all_aux by blast

lemma for_y_list_all_aux:
  "for_y mk x0 xlimit xstep y ylimit ystep acc = Some r \<Longrightarrow>
   list_all Q acc \<longrightarrow> (\<forall>a b. Q (mk a b)) \<longrightarrow> list_all Q r"
  by (erule for_y.raw_induct[rotated])
     (auto split: if_splits Option.bind_splits dest: for_x_list_all)

lemma for_y_list_all:
  "for_y mk x0 xlimit xstep y ylimit ystep acc = Some r \<Longrightarrow> list_all Q acc \<Longrightarrow>
   (\<And>a b. Q (mk a b)) \<Longrightarrow> list_all Q r"
  using for_y_list_all_aux by blast

lemma scattered_loop_list_all:
  "list_all Q acc \<Longrightarrow> (\<And>a b c. Q (scattered_text fs t a b c)) \<Longrightarrow>
   list_all Q (scattered_loop w h fs t i g acc)"
proof (induction w h fs t i g acc rule: scattered_loop.induct)
  case (1 width height fontSize rawWatermarkText i g svgContent)
  show ?case
  proof (cases "i < numWatermarks")
    case True
    then show ?thesis
      using 1 by (subst scattered_loop.simps) (simp add: Let_def split: prod.splits)
  next
    case False
    then show ?thesis using 1 by (subst scattered_loop.simps) simp
  qed
qed

lemma createWatermarkSVG_list_all:
  assumes "createWatermarkSVG g t w h style = Some (Inr overlay)"
    and "\<And>a b. Q (diagonal_text (fontSize_of w) t a b)"
    and "\<And>a b. Q (grid_text (fontSize_of w) t a b)"
    and "\<And>a b c. Q (scattered_text (fontSize_of w) t a b c)"
  shows "list_all Q (svg_children overlay)"
  using assms
  by (auto simp: createWatermarkSVG_def Let_def split: if_splits
      dest!: for_y_list_all[where Q=Q] intro!: scattered_loop_list_all)

section \<open>Properties of the parameter operators\<close>

lemma or_else_supplied: "or_else (query req k) (body req k) = supplied req k"
  by (simp add: or_else_def supplied_def truthy_def split: option.splits)

lemma truthy_supplied:
  "truthy (supplied req k) = (truthy (query req k) \<or> truthy (body req k))"
  by (auto simp: supplied_def truthy_def split: option.splits)

lemma grid100_member: "grid_text 24 ''hi'' 20 40 \<in> set (svg_children (grid100 ''hi''))"
  by (simp add: grid100_def)

section \<open>Properties of binary64 rounding\<close>

lemma pow2_powi: "pow2 p = 2 powi p"
proof (cases "0 \<le> p")
  case True
  then obtain n where "p = int n" using zero_le_imp_eq_int by blast
  then show ?thesis by (simp add: pow2_def)
next
  case False
  then have "0 \<le> - p" by simp
  then obtain n where n: "- p = int n" using zero_le_imp_eq_int by blast
  then have p: "p = - int n" by simp
  have "nat (- p) = n" using n by simp
  moreover have "(2::rat) powi (- int n) = inverse (2 ^ n)"
    by (simp add: power_int_minus)
  ultimately show ?thesis using False p by (simp add: pow2_def inverse_eq_divide)
qed

lemma pow2_pos [simp]: "0 < pow2 p"
  by (simp add: pow2_powi)

lemma pow2_nonzero [simp]: "pow2 p \<noteq> 0"
  using pow2_pos [of p] by linarith

lemma pow2_nonneg [simp]: "0 \<le> pow2 p"
  using pow2_pos [of p] by linarith

lemma pow2_abs [simp]: "\<bar>pow2 p\<bar> = pow2 p"
  using pow2_pos [of p] by linarith

lemma pow2_53: "pow2 53 = 2 ^ 53"
  by (simp add: pow2_def)

lemma pow2_1: "pow2 1 = 2"
  by (simp add: pow2_def)

lemma pow2_add: "pow2 (a + b) = pow2 a * pow2 b"
  by (simp add: pow2_powi power_int_add)

lemma pow2_mono: "a \<le> b \<Longrightarrow> pow2 a \<le> pow2 b"
  by (simp add: pow2_powi power_int_increasing)

lemma pow2_strict_mono: "a < b \<Longrightarrow> pow2 a < pow2 b"
  by (simp add: pow2_powi power_int_strict_increasing)

lemma pow2_nat: "pow2 (int n) = 2 ^ n"
  by (simp add: pow2_def)

lemma pow2_0 [simp]: "pow2 0 = 1"
  by (simp add: pow2_def)

lemma pow2_less_cancel: "pow2 a < pow2 b \<Longrightarrow> a < b"
  using pow2_mono [of b a] by (cases "a < b") auto

lemma pow2_minus: "pow2 (- a) = 1 / pow2 a"
proof -
  have "pow2 a * pow2 (- a) = 1" using pow2_add [of a "- a"] by simp
  then show ?thesis by (simp add: field_simps)
qed

lemma pow2_diff: "pow2 (a - b) = pow2 a / pow2 b"
  using pow2_add [of a "- b"] by (simp add: pow2_minus)

lemma ilog2_bounds:
  assumes "0 < x"
  shows "pow2 (ilog2 x) \<le> x \<and> x < pow2 (ilog2 x + 1)"
proof (cases "1 \<le> x")
  case True
  define n where "n = \<lfloor>x\<rfloor>"
  have n: "1 \<le> n" using True by (simp add: n_def le_floor_iff)
  from bitlen_bounds [of n] n
  have b: "2 ^ nat (bitlen n - 1) \<le> n" "n < 2 ^ nat (bitlen n)" by auto
  have bl: "1 \<le> bitlen n" using n by (simp add: bitlen_alt_def)
  have "rat_of_int (2 ^ nat (bitlen n - 1)) \<le> of_int n" using b(1) by (simp only: of_int_le_iff)
  also have "\<dots> \<le> x" by (simp add: n_def)
  finally have lo: "pow2 (bitlen n - 1) \<le> x" using bl by (simp add: pow2_def)
  have "n + 1 \<le> 2 ^ nat (bitlen n)" using b(2) by simp
  then have "rat_of_int (n + 1) \<le> of_int (2 ^ nat (bitlen n))" by (simp only: of_int_le_iff)
  moreover have "x < of_int (n + 1)" using floor_correct [of x] by (simp add: n_def)
  ultimately have "x < 2 ^ nat (bitlen n)" by simp
  then have hi: "x < pow2 (bitlen n - 1 + 1)" using bl by (simp add: pow2_def)
  from lo hi True show ?thesis by (simp add: ilog2_def n_def)
next
  case False
  define c where "c = \<lceil>1 / x\<rceil>"
  define k where "k = bitlen (c - 1)"
  have x1: "x < 1" using False by simp
  then have "1 < 1 / x" using assms by simp
  then have c2: "2 \<le> c" unfolding c_def
    by linarith
  from bitlen_bounds [of "c - 1"] c2
  have b: "2 ^ nat (k - 1) \<le> c - 1" "c - 1 < 2 ^ nat k" by (auto simp: k_def)
  have k1: "1 \<le> k" using c2 by (simp add: k_def bitlen_alt_def)
  have "1 / x \<le> of_int c" by (simp add: c_def)
  also have "c \<le> 2 ^ nat k" using b(2) by simp
  then have "rat_of_int c \<le> of_int (2 ^ nat k)" by (simp only: of_int_le_iff)
  finally have "1 / x \<le> 2 ^ nat k" by simp
  then have "1 \<le> 2 ^ nat k * x" using assms by (simp add: field_simps)
  then have lo: "pow2 (- k) \<le> x" using k1 by (simp add: pow2_def field_simps)
  have "rat_of_int (2 ^ nat (k - 1)) \<le> of_int (c - 1)" using b(1) by (simp only: of_int_le_iff)
  also have "rat_of_int (c - 1) < 1 / x" unfolding c_def
    using ceiling_correct [of "1 / x"] by simp
  finally have "2 ^ nat (k - 1) < 1 / x" by simp
  then have "x * 2 ^ nat (k - 1) < 1" using assms by (simp add: field_simps)
  then have hi: "x < pow2 (- k + 1)" using k1
    by (cases "k = 1") (auto simp: pow2_def field_simps)
  from lo hi False show ?thesis by (simp add: ilog2_def c_def k_def)
qed

lemma ilog2_unique:
  assumes "0 < x" "pow2 e \<le> x" "x < pow2 (e + 1)"
  shows "ilog2 x = e"
proof -
  from ilog2_bounds [OF assms(1)] have b: "pow2 (ilog2 x) \<le> x" "x < pow2 (ilog2 x + 1)" by auto
  have "pow2 e < pow2 (ilog2 x + 1)" using assms(2) b(2) by simp
  then have 1: "e < ilog2 x + 1" by (rule pow2_less_cancel)
  have "pow2 (ilog2 x) < pow2 (e + 1)" using assms(3) b(1) by simp
  then have 2: "ilog2 x < e + 1" by (rule pow2_less_cancel)
  from 1 2 show ?thesis by simp
qed

lemma ilog2_mono:
  assumes "0 < x" "x \<le> y"
  shows "ilog2 x \<le> ilog2 y"
proof -
  have "pow2 (ilog2 x) \<le> x" using ilog2_bounds [OF assms(1)] by simp
  also have "x \<le> y" by fact
  also have "y < pow2 (ilog2 y + 1)" using ilog2_bounds [of y] assms by simp
  finally have "ilog2 x < ilog2 y + 1" by (rule pow2_less_cancel)
  then show ?thesis by simp
qed

lemma ilog2_scale: "0 < x \<Longrightarrow> ilog2 (x * pow2 k) = ilog2 x + k"
proof (rule ilog2_unique)
  assume x: "0 < x"
  then show "0 < x * pow2 k" by simp
  from ilog2_bounds [OF x] show "pow2 (ilog2 x + k) \<le> x * pow2 k"
    by (simp add: pow2_add)
  from ilog2_bounds [OF x] show "x * pow2 k < pow2 (ilog2 x + k + 1)"
    using pow2_add [of "ilog2 x + 1" k] by (simp add: add.commute add.left_commute)
qed

subsection \<open>Rounding to an integer\<close>

lemma rhe_cases:
  obtains f where "of_int f \<le> x" "x < of_int f + 1"
    "rhe x = (if x - of_int f < 1 / 2 then f else if 1 / 2 < x - of_int f then f + 1
              else if even f then f else f + 1)"
proof -
  define f where "f = \<lfloor>x\<rfloor>"
  have "of_int f \<le> x" "x < of_int f + 1"
    using floor_correct [of x] by (simp_all add: f_def)
  moreover have "rhe x = (if x - of_int f < 1 / 2 then f else if 1 / 2 < x - of_int f then f + 1
              else if even f then f else f + 1)"
    by (simp add: rhe_def f_def Let_def)
  ultimately show ?thesis using that by blast
qed

lemma rhe_error: "\<bar>of_int (rhe x) - x\<bar> \<le> 1 / 2"
proof -
  obtain f where f: "of_int f \<le> x" "x < of_int f + 1"
    "rhe x = (if x - of_int f < 1 / 2 then f else if 1 / 2 < x - of_int f then f + 1
              else if even f then f else f + 1)"
    by (rule rhe_cases)
  show ?thesis unfolding f(3) using f(1,2) by (auto simp: abs_if)
qed

lemma rhe_frac:
  assumes "0 \<le> d" "d < 1"
  shows "rhe (of_int k + d) =
    (if d < 1 / 2 then k else if 1 / 2 < d then k + 1 else if even k then k else k + 1)"
proof -
  have "\<lfloor>of_int k + d\<rfloor> = k" using assms by (simp add: floor_unique)
  then show ?thesis by (simp add: rhe_def Let_def)
qed

lemma rhe_of_int [simp]: "rhe (of_int k) = k"
  using rhe_frac [of 0 k] by simp

lemma rhe_le: "x \<le> of_int n \<Longrightarrow> rhe x \<le> n"
proof -
  assume a: "x \<le> of_int n"
  have f: "of_int \<lfloor>x\<rfloor> \<le> x" "x < of_int \<lfloor>x\<rfloor> + 1" using floor_correct [of x] by simp_all
  have "\<lfloor>x\<rfloor> \<le> n" using a by (simp add: floor_le_iff) 
  moreover have "x - of_int \<lfloor>x\<rfloor> \<ge> 1 / 2 \<Longrightarrow> \<lfloor>x\<rfloor> + 1 \<le> n"
  proof -
    assume "x - of_int \<lfloor>x\<rfloor> \<ge> 1 / 2"
    then have "of_int \<lfloor>x\<rfloor> < rat_of_int n" using a by linarith
    then show ?thesis by simp
  qed
  ultimately show ?thesis by (auto simp: rhe_def Let_def)
qed

lemma rhe_ge: "of_int n \<le> x \<Longrightarrow> n \<le> rhe x"
proof -
  assume a: "of_int n \<le> x"
  then have "n \<le> \<lfloor>x\<rfloor>" by (simp add: le_floor_iff)
  then show ?thesis by (auto simp: rhe_def Let_def)
qed

lemma rhe_minus: "rhe (- x) = - rhe x"
proof -
  have f: "of_int \<lfloor>x\<rfloor> \<le> x" "x < of_int \<lfloor>x\<rfloor> + 1" using floor_correct [of x] by simp_all
  show ?thesis
  proof (cases "x = of_int \<lfloor>x\<rfloor>")
    case True
    then obtain k where "x = of_int k" by blast
    then show ?thesis by (simp flip: of_int_minus)
  next
    case False
    define k where "k = \<lfloor>x\<rfloor>"
    define d where "d = x - of_int k"
    have d: "0 < d" "d < 1" using f False unfolding d_def k_def by linarith+
    have x: "x = of_int k + d" by (simp add: d_def)
    have mx: "- x = of_int (- k - 1) + (1 - d)" by (simp add: d_def)
    have "rhe (- x) = (if 1 - d < 1 / 2 then - k - 1 else if 1 / 2 < 1 - d then - k
        else if even (- k - 1) then - k - 1 else - k)"
      unfolding mx using d by (subst rhe_frac) auto
    moreover have "rhe x = (if d < 1 / 2 then k else if 1 / 2 < d then k + 1
        else if even k then k else k + 1)"
      unfolding x using d by (subst rhe_frac) auto
    ultimately show ?thesis by auto
  qed
qed

subsection \<open>Rounding to binary64\<close>

lemma rnd_0 [simp]: "rnd 0 = 0"
  by (simp add: rnd_def)

lemma rnd_nonzero:
  "x \<noteq> 0 \<Longrightarrow> rnd x = of_int (rhe (x / pow2 (ilog2 \<bar>x\<bar> - 52))) * pow2 (ilog2 \<bar>x\<bar> - 52)"
  by (simp add: rnd_def Let_def)



lemma rnd_scale: "rnd (x * pow2 k) = rnd x * pow2 k"
proof (cases "x = 0")
  case True
  then show ?thesis by simp
next
  case False
  then have nz: "x * pow2 k \<noteq> 0" by simp
  have a: "\<bar>x * pow2 k\<bar> = \<bar>x\<bar> * pow2 k" by (simp add: abs_mult)
  have e: "ilog2 \<bar>x * pow2 k\<bar> = ilog2 \<bar>x\<bar> + k"
    unfolding a using False by (simp add: ilog2_scale)
  have "pow2 (ilog2 \<bar>x\<bar> + k - 52) = pow2 (ilog2 \<bar>x\<bar> - 52) * pow2 k"
    using pow2_add [of "ilog2 \<bar>x\<bar> - 52" k] by (simp add: algebra_simps)
  then show ?thesis
    unfolding rnd_nonzero [OF nz] rnd_nonzero [OF False] e by simp
qed

lemma rnd_minus: "rnd (- x) = - rnd x"
  by (cases "x = 0") (simp_all add: rnd_nonzero rhe_minus)

lemma rnd_nonneg: "0 \<le> x \<Longrightarrow> 0 \<le> rnd x"
proof (cases "x = 0")
  case False
  assume "0 \<le> x"
  then have "0 \<le> x / pow2 (ilog2 \<bar>x\<bar> - 52)" by simp
  then have "0 \<le> rhe (x / pow2 (ilog2 \<bar>x\<bar> - 52))"
    using rhe_ge [of 0] by simp
  then show ?thesis unfolding rnd_nonzero [OF False] by simp
qed simp

text \<open>A rational \<open>m * 2^q\<close> with \<open>|m| < 2^53\<close> is a binary64 value.\<close>

lemma rnd_exact:
  assumes "\<bar>m\<bar> < 2 ^ 53"
  shows "rnd (of_int m * pow2 q) = of_int m * pow2 q"
proof (cases "m = 0")
  case True
  then show ?thesis by simp
next
  case False
  have "rnd (of_int m) = of_int m"
  proof -
    have nz: "rat_of_int m \<noteq> 0" using False by simp
    define e where "e = ilog2 \<bar>rat_of_int m\<bar>"
    have "pow2 e \<le> \<bar>rat_of_int m\<bar>"
      using ilog2_bounds [of "\<bar>rat_of_int m\<bar>"] nz by (simp add: e_def)
    also have "\<bar>rat_of_int m\<bar> < 2 ^ 53"
    proof -
      have "rat_of_int \<bar>m\<bar> < rat_of_int (2 ^ 53)" using assms by (simp only: of_int_less_iff)
      then show ?thesis by simp
    qed
    also have "(2::rat) ^ 53 = pow2 53" by (simp add: pow2_53)
    finally have "e < 53" by (rule pow2_less_cancel)
    define t where "t = nat (52 - e)"
    have t: "e - 52 = - int t" using \<open>e < 53\<close> by (simp add: t_def)
    have "rat_of_int m / pow2 (e - 52) = of_int (m * 2 ^ t)"
      unfolding t by (simp add: pow2_minus pow2_nat)
    then have "rhe (rat_of_int m / pow2 (e - 52)) = m * 2 ^ t"
      by (simp only: rhe_of_int)
    then show ?thesis
      unfolding rnd_nonzero [OF nz] e_def [symmetric] t
      by (simp add: pow2_minus pow2_nat)
  qed
  then show ?thesis by (simp add: rnd_scale)
qed

lemma is_double_of_int: "\<bar>m\<bar> \<le> 2 ^ 53 \<Longrightarrow> is_double (of_int m)"
proof (cases "\<bar>m\<bar> < 2 ^ 53")
  case True
  then show ?thesis using rnd_exact [of m 0] by (simp add: is_double_def)
next
  case False
  assume "\<bar>m\<bar> \<le> 2 ^ 53"
  with False have "m = 2 ^ 53 \<or> m = - (2 ^ 53)" by linarith
  moreover have "rnd (of_int (2 ^ 52) * pow2 1) = of_int (2 ^ 52) * pow2 1"
    by (rule rnd_exact) simp
  then have "rnd (2 ^ 53) = 2 ^ 53" by (simp add: pow2_1)
  ultimately show ?thesis by (auto simp: is_double_def rnd_minus)
qed

text \<open>The significand of a positive binary64 value.\<close>

lemma double_significand:
  assumes "is_double w" "0 < w"
  obtains M where "w = of_int M * pow2 (ilog2 w - 52)" "2 ^ 52 \<le> M" "M < 2 ^ 53"
proof -
  define p where "p = ilog2 w - 52"
  define M where "M = rhe (w / pow2 p)"
  have nz: "w \<noteq> 0" using assms by simp
  have "rnd w = of_int M * pow2 p"
    using rnd_nonzero [OF nz] assms(2) by (simp add: M_def p_def)
  then have w: "w = of_int M * pow2 p" using assms(1) by (simp add: is_double_def)
  then have z: "w / pow2 p = of_int M" by simp
  have "pow2 (ilog2 w) \<le> w" "w < pow2 (ilog2 w + 1)"
    using ilog2_bounds [OF assms(2)] by simp_all
  then have "pow2 (ilog2 w) / pow2 p \<le> w / pow2 p" "w / pow2 p < pow2 (ilog2 w + 1) / pow2 p"
    by (simp_all add: divide_right_mono divide_strict_right_mono)
  moreover have "pow2 (ilog2 w) / pow2 p = 2 ^ 52"
    unfolding pow2_diff [symmetric] p_def by (simp add: pow2_def)
  moreover have "pow2 (ilog2 w + 1) / pow2 p = 2 ^ 53"
    unfolding pow2_diff [symmetric] p_def by (simp add: pow2_def)
  ultimately have "(2::rat) ^ 52 \<le> of_int M" "rat_of_int M < 2 ^ 53" by (simp_all add: z)
  then have "rat_of_int (2 ^ 52) \<le> of_int M" "rat_of_int M < of_int (2 ^ 53)" by simp_all
  then have "2 ^ 52 \<le> M" "M < 2 ^ 53" by (simp_all only: of_int_le_iff of_int_less_iff)
  with w show ?thesis using that by (simp add: p_def)
qed

lemma double_below_one:
  assumes "is_double r" "0 \<le> r" "r < 1"
  shows "r \<le> 1 - 1 / 2 ^ 53"
proof (cases "r < 1 / 2")
  case True
  then show ?thesis by simp
next
  case False
  then have r: "0 < r" "1 / 2 \<le> r" by simp_all
  have e: "ilog2 r = - 1"
    using r assms(3) by (intro ilog2_unique) (simp_all add: pow2_def)
  obtain M where M: "r = of_int M * pow2 (ilog2 r - 52)" "2 ^ 52 \<le> M" "M < 2 ^ 53"
    using double_significand [OF assms(1) r(1)] by blast
  have p: "pow2 (- 53) = 1 / 2 ^ 53" by (simp add: pow2_def)
  have rM: "r = of_int M / 2 ^ 53" using M(1) by (simp add: e p)
  have "M \<le> 2 ^ 53 - 1" using M(3) by simp
  then have "rat_of_int M \<le> of_int (2 ^ 53 - 1)" by (simp only: of_int_le_iff)
  then have "rat_of_int M / 2 ^ 53 \<le> (2 ^ 53 - 1) / 2 ^ 53"
    by (simp add: divide_right_mono)
  then show ?thesis by (simp add: rM diff_divide_distrib)
qed

lemma rnd_upper:
  assumes "0 < y" "y \<le> of_int n * pow2 (ilog2 y - 52)"
  shows "rnd y \<le> of_int n * pow2 (ilog2 y - 52)"
proof -
  have nz: "y \<noteq> 0" using assms by simp
  have "y / pow2 (ilog2 y - 52) \<le> of_int n"
    using assms(2) by (simp add: pos_divide_le_eq)
  then have "rhe (y / pow2 (ilog2 y - 52)) \<le> n" by (rule rhe_le)
  then have "rat_of_int (rhe (y / pow2 (ilog2 y - 52))) \<le> of_int n" by (simp only: of_int_le_iff)
  then show ?thesis
    using rnd_nonzero [OF nz] assms(1) by (simp add: mult_right_mono)
qed

lemma y_scaled_bound:
  assumes "0 < y"
  shows "y < 2 ^ 53 * pow2 (ilog2 y - 52)"
proof -
  have "2 ^ 53 * pow2 (ilog2 y - 52) = pow2 53 * pow2 (ilog2 y - 52)" by (simp add: pow2_53)
  also have "\<dots> = pow2 (ilog2 y + 1)"
    unfolding pow2_add [symmetric] by (simp add: add.commute)
  finally show ?thesis using ilog2_bounds [OF assms] by simp
qed

lemma rnd_mult_unit_less:
  assumes w: "is_double w" "0 < w" and r: "is_double r" "0 \<le> r" "r < 1"
  shows "0 \<le> rnd (r * w) \<and> rnd (r * w) < w"
proof -
  define y where "y = r * w"
  have y0: "0 \<le> y" using w r by (simp add: y_def)
  obtain M where M: "w = of_int M * pow2 (ilog2 w - 52)" "2 ^ 52 \<le> M" "M < 2 ^ 53"
    using double_significand [OF w] by blast
  define pw where "pw = ilog2 w - 52"
  have wM: "w = of_int M * pow2 pw" using M(1) by (simp add: pw_def)
  have Mr: "(2::rat) ^ 52 \<le> of_int M"
  proof -
    have "rat_of_int (2 ^ 52) \<le> of_int M" using M(2) by (simp only: of_int_le_iff)
    then show ?thesis by simp
  qed
  have r1: "r \<le> 1 - 1 / 2 ^ 53" using double_below_one [OF r] .
  have "y \<le> (1 - 1 / 2 ^ 53) * w"
    unfolding y_def using r1 w(2) by (intro mult_right_mono) simp_all
  then have yb: "y \<le> (of_int M - of_int M / 2 ^ 53) * pow2 pw"
    by (simp add: wM algebra_simps)
  have half: "1 / 2 \<le> rat_of_int M / 2 ^ 53" using Mr by simp
  have "rnd y < w"
  proof (cases "y = 0")
    case True
    then show ?thesis using w(2) by simp
  next
    case False
    then have yp: "0 < y" using y0 by simp
    have "of_int M - of_int M / 2 ^ 53 < rat_of_int M" using half by linarith
    then have "(of_int M - of_int M / 2 ^ 53) * pow2 pw < rat_of_int M * pow2 pw"
      by (intro mult_strict_right_mono) simp_all
    with yb have yw: "y < w" unfolding wM by linarith
    have el: "ilog2 y \<le> ilog2 w" using ilog2_mono [OF yp] yw by simp
    define py where "py = ilog2 y - 52"
    consider "ilog2 y = ilog2 w" | "ilog2 y + 1 = ilog2 w" | "ilog2 y + 1 < ilog2 w"
      using el by linarith
    then show ?thesis
    proof cases
      case 1
      then have p: "py = pw" by (simp add: py_def pw_def)
      have lo: "pow2 (ilog2 w) \<le> y" using ilog2_bounds [OF yp] 1 by simp
      have "pow2 (ilog2 w) = 2 ^ 52 * pow2 pw"
      proof -
        have "2 ^ 52 * pow2 pw = pow2 52 * pow2 pw" by (simp add: pow2_def)
        also have "\<dots> = pow2 (ilog2 w)" unfolding pow2_add [symmetric] by (simp add: pw_def)
        finally show ?thesis by simp
      qed
      with lo yb have "2 ^ 52 * pow2 pw \<le> (of_int M - of_int M / 2 ^ 53) * pow2 pw"
        by linarith
      then have "(2::rat) ^ 52 \<le> of_int M - of_int M / 2 ^ 53"
        by (rule mult_right_le_imp_le) simp
      then have "(2::rat) ^ 52 < of_int M" using half by linarith
      then have "rat_of_int (2 ^ 52) < of_int M" by simp
      then have "2 ^ 52 < M" by (simp only: of_int_less_iff)
      then have "2 ^ 52 + 1 \<le> M" by simp
      then have "rat_of_int (2 ^ 52 + 1) \<le> of_int M" by (simp only: of_int_le_iff)
      then have hm: "1 / 2 < rat_of_int M / 2 ^ 53" by simp
      have "y \<le> (of_int M - of_int M / 2 ^ 53) * pow2 pw" by (rule yb)
      then have "y / pow2 pw \<le> of_int M - of_int M / 2 ^ 53"
        by (subst pos_divide_le_eq) simp_all
      then have z: "y / pow2 pw < rat_of_int M - 1 / 2"
        using hm by linarith
      have "rat_of_int (rhe (y / pow2 pw)) \<le> y / pow2 pw + 1 / 2"
        using rhe_error [of "y / pow2 pw"] by linarith
      then have "rat_of_int (rhe (y / pow2 pw)) < of_int M" using z by linarith
      then have "rhe (y / pow2 pw) < M" by (simp only: of_int_less_iff)
      then have "rhe (y / pow2 pw) \<le> M - 1" by simp
      then have "rat_of_int (rhe (y / pow2 pw)) \<le> of_int (M - 1)" by (simp only: of_int_le_iff)
      then have "rnd y \<le> of_int (M - 1) * pow2 pw"
        using rnd_nonzero [of y] False yp p by (simp add: py_def mult_right_mono)
      also have "\<dots> < w" by (simp add: wM)
      finally show ?thesis .
    next
      case 2
      then have p: "py = pw - 1" by (simp add: py_def pw_def)
      have pp: "pow2 pw = 2 * pow2 py"
        using pow2_add [of 1 py] by (simp add: p pow2_1)
      have "(of_int M - of_int M / 2 ^ 53) * 2 \<le> 2 * rat_of_int M - 1" using Mr by simp
      then have "(of_int M - of_int M / 2 ^ 53) * 2 \<le> rat_of_int (2 * M - 1)" by simp
      then have "(of_int M - of_int M / 2 ^ 53) * 2 * pow2 py \<le> rat_of_int (2 * M - 1) * pow2 py"
        by (intro mult_right_mono) simp_all
      then have "(of_int M - of_int M / 2 ^ 53) * pow2 pw \<le> rat_of_int (2 * M - 1) * pow2 py"
        by (simp only: pp mult.assoc)
      with yb have "y \<le> rat_of_int (2 * M - 1) * pow2 (ilog2 y - 52)" by (simp add: py_def)
      then have "rnd y \<le> rat_of_int (2 * M - 1) * pow2 (ilog2 y - 52)"
        using rnd_upper [OF yp] by blast
      also have "\<dots> < w" by (simp add: wM pp py_def algebra_simps)
      finally show ?thesis .
    next
      case 3
      have "y \<le> rat_of_int (2 ^ 53) * pow2 (ilog2 y - 52)"
        using y_scaled_bound [OF yp] by simp
      then have "rnd y \<le> rat_of_int (2 ^ 53) * pow2 (ilog2 y - 52)"
        by (rule rnd_upper [OF yp])
      also have "\<dots> = pow2 (ilog2 y + 1)"
      proof -
        have "rat_of_int (2 ^ 53) * pow2 (ilog2 y - 52) = pow2 53 * pow2 (ilog2 y - 52)"
          by (simp add: pow2_53)
        also have "\<dots> = pow2 (ilog2 y + 1)"
          unfolding pow2_add [symmetric] by (simp add: add.commute)
        finally show ?thesis .
      qed
      also have "\<dots> < pow2 (ilog2 w)" using 3 by (rule pow2_strict_mono)
      also have "\<dots> \<le> w" using ilog2_bounds [OF w(2)] by simp
      finally show ?thesis .
    qed
  qed
  moreover have "0 \<le> rnd y" using y0 by (rule rnd_nonneg)
  ultimately show ?thesis by (simp add: y_def)
qed

section \<open>The scattered loop\<close>

lemma unit_draws_Math_random:
  "unit_draws g \<Longrightarrow> Math_random g = (r, g') \<Longrightarrow>
   is_double r \<and> 0 \<le> r \<and> r < 1 \<and> unit_draws g'"
  by (auto simp: unit_draws_def Math_random_def)

lemma is_double_360: "is_double 360"
  using is_double_of_int [of 360] by simp

lemma scattered_loop_correct:
  "is_double w \<Longrightarrow> 0 < w \<Longrightarrow> is_double h \<Longrightarrow> 0 < h \<Longrightarrow>
   unit_draws g \<Longrightarrow> i \<le> numWatermarks \<Longrightarrow> list_all (in_canvas w h) acc \<Longrightarrow>
    length (scattered_loop w h fs t i g acc) = length acc + (numWatermarks - i) \<and>
    list_all (in_canvas w h) (scattered_loop w h fs t i g acc)"
proof (induction w h fs t i g acc rule: scattered_loop.induct)
  case (1 width height fontSize rawWatermarkText i g svgContent)
  show ?case
  proof (cases "i < numWatermarks")
    case False
    then show ?thesis using "1.prems" by (subst (1 2) scattered_loop.simps) simp
  next
    case True
    obtain r1 g1 where m1: "Math_random g = (r1, g1)" by (cases "Math_random g")
    obtain r2 g2 where m2: "Math_random g1 = (r2, g2)" by (cases "Math_random g1")
    obtain r3 g3 where m3: "Math_random g2 = (r3, g3)" by (cases "Math_random g2")
    from unit_draws_Math_random [OF "1.prems"(5) m1]
    have u1: "is_double r1" "0 \<le> r1" "r1 < 1" "unit_draws g1" by simp_all
    from unit_draws_Math_random [OF u1(4) m2]
    have u2: "is_double r2" "0 \<le> r2" "r2 < 1" "unit_draws g2" by simp_all
    from unit_draws_Math_random [OF u2(4) m3]
    have u3: "is_double r3" "0 \<le> r3" "r3 < 1" "unit_draws g3" by simp_all
    let ?e = "scattered_text fontSize rawWatermarkText (fmul r1 width) (fmul r2 height) (fmul r3 360)"
    have e: "in_canvas width height ?e"
      using rnd_mult_unit_less [OF "1.prems"(1,2) u1(1,2,3)]
        rnd_mult_unit_less [OF "1.prems"(3,4) u2(1,2,3)]
        rnd_mult_unit_less [OF is_double_360 _ u3(1,2,3)]
      by (simp add: in_canvas_def scattered_text_def fmul_def)
    have step: "scattered_loop width height fontSize rawWatermarkText i g svgContent =
       scattered_loop width height fontSize rawWatermarkText (i + 1) g3 (svgContent @ [?e])"
      using True by (subst scattered_loop.simps) (simp add: m1 m2 m3)
    have "length (scattered_loop width height fontSize rawWatermarkText (i + 1) g3 (svgContent @ [?e]))
        = length (svgContent @ [?e]) + (numWatermarks - (i + 1)) \<and>
      list_all (in_canvas width height)
        (scattered_loop width height fontSize rawWatermarkText (i + 1) g3 (svgContent @ [?e]))"
      using True "1.prems" e u3(4)
      by (intro "1.IH" [OF True m1 [symmetric] _ refl m2 [symmetric] _ refl m3 [symmetric] _ refl]) simp_all
    then show ?thesis using True by (simp add: step)
  qed
qed


section \<open>The stepping loops\<close>















section \<open>Rounding of integers\<close>








subsection \<open>Five steps of a fifth\<close>

























section \<open>The overlay generator\<close>

text \<open>
  C5. Whatever the dimensions and the text, a style string other than
  \<^verbatim>\<open>diagonal\<close>, \<^verbatim>\<open>grid\<close> and \<^verbatim>\<open>scattered\<close> makes the generator throw
  \<^verbatim>\<open>Error('Invalid watermark style')\<close>; it returns no overlay, empty or not.
\<close>

theorem invalid_style_rejected:
  "style \<noteq> ''diagonal'' \<Longrightarrow> style \<noteq> ''grid'' \<Longrightarrow> style \<noteq> ''scattered'' \<Longrightarrow>
   createWatermarkSVG g rawWatermarkText width height style =
     Some (Inl (Error ''Invalid watermark style''))"
  by (simp add: createWatermarkSVG_def)

theorem invalid_style_rejected_witness:
  "''Diagonal'' \<noteq> ''diagonal'' \<and> ''Diagonal'' \<noteq> ''grid'' \<and> ''Diagonal'' \<noteq> ''scattered'' \<and>
   createWatermarkSVG (\<lambda>i. 1 / 2) ''hi'' 100 100 ''Diagonal'' =
     Some (Inl (Error ''Invalid watermark style''))"
  using invalid_style_rejected [of "''Diagonal''" "\<lambda>i. 1 / 2" "''hi''" 100 100] by simp

text \<open>
  C3. The font size is \<^verbatim>\<open>Math.max(width / 20, 24)\<close>, it is computed once, and every
  text element of the overlay carries it, whatever the style; a width of 100 gives 24
  and a width of 1000 gives 50.
\<close>

theorem fontSize_shared:
  "(createWatermarkSVG g rawWatermarkText width height style = Some (Inr overlay) \<longrightarrow>
      (\<forall>e \<in> set (svg_children overlay). font_size e = max (fdiv width 20) 24)) \<and>
   max (fdiv 100 20) 24 = 24 \<and> max (fdiv 1000 20) 24 = 50"
proof (intro conjI impI)
  assume "createWatermarkSVG g rawWatermarkText width height style = Some (Inr overlay)"
  then have "list_all (\<lambda>e. font_size e = fontSize_of width) (svg_children overlay)"
    by (rule createWatermarkSVG_list_all)
       (simp_all add: diagonal_text_def grid_text_def scattered_text_def)
  then show "\<forall>e \<in> set (svg_children overlay). font_size e = max (fdiv width 20) 24"
    by (simp add: list_all_iff fontSize_of_def)
next
  show "max (fdiv 100 20) 24 = 24" by code_simp
next
  show "max (fdiv 1000 20) 24 = 50" by code_simp
qed

theorem fontSize_shared_witness:
  "createWatermarkSVG (\<lambda>i. 1 / 2) ''hi'' 1000 100 ''grid'' =
     Some (Inr \<lparr>svg_width = 1000, svg_height = 100,
                svg_children = concat (map (\<lambda>y. map (\<lambda>x. grid_text 50 ''hi'' x y)
                  [0, 200, 400, 600, 800]) [0, 20, 40, 60, 80])\<rparr>) \<and>
   font_size (grid_text 50 ''hi'' 200 20) = max (fdiv 1000 20) 24"
proof -
  have run: "createWatermarkSVG (\<lambda>i. 1 / 2) ''hi'' 1000 100 ''grid'' =
     Some (Inr \<lparr>svg_width = 1000, svg_height = 100,
                svg_children = concat (map (\<lambda>y. map (\<lambda>x. grid_text 50 ''hi'' x y)
                  [0, 200, 400, 600, 800]) [0, 20, 40, 60, 80])\<rparr>)"
    by code_simp
  from fontSize_shared [of "\<lambda>i. 1 / 2" "''hi''" 1000 100 "''grid''"] run
  show ?thesis by simp
qed

section \<open>The layouts\<close>








text \<open>
  C4. For every positive width and height and every sequence of draws of the random
  source from [0, 1), the generator invoked with the style \<^verbatim>\<open>scattered\<close> returns an
  overlay of exactly 50 elements, each with \<open>x\<close> in [0, width), \<open>y\<close> in [0, height), a
  rotation in [0, 360) and opacity 0.3. The width, the height and the draws are
  binary64 values, as every number of the program is.
\<close>

theorem scattered_layout:
  assumes "is_double width" "0 < width" "is_double height" "0 < height"
    and "\<forall>i. is_double (g i) \<and> 0 \<le> g i \<and> g i < 1"
  shows "\<exists>overlay.
    createWatermarkSVG g rawWatermarkText width height ''scattered'' = Some (Inr overlay) \<and>
    length (svg_children overlay) = 50 \<and>
    (\<forall>e \<in> set (svg_children overlay).
       0 \<le> attr_x e \<and> attr_x e < width \<and> 0 \<le> attr_y e \<and> attr_y e < height \<and>
       0 \<le> rotationDegrees e \<and> rotationDegrees e < 360 \<and> opacity e = 3 / 10)"
proof -
  have "unit_draws g" using assms(5) by (simp add: unit_draws_def)
  from scattered_loop_correct [OF assms(1,2,3,4) this, of 0 "[]"]
  have "length (scattered_loop width height (fontSize_of width) rawWatermarkText 0 g []) = 50"
    "list_all (in_canvas width height)
       (scattered_loop width height (fontSize_of width) rawWatermarkText 0 g [])"
    by (simp_all add: numWatermarks_def)
  then show ?thesis
    by (simp add: createWatermarkSVG_def list_all_iff in_canvas_def)
qed

theorem scattered_layout_witness:
  "is_double 100 \<and> (0::rat) < 100 \<and> is_double (1 / 2) \<and>
   createWatermarkSVG (\<lambda>i. 1 / 2) ''hi'' 100 100 ''scattered'' =
     Some (Inr \<lparr>svg_width = 100, svg_height = 100,
                svg_children = replicate 50 (scattered_text 24 ''hi'' 50 50 180)\<rparr>) \<and>
   attr_x (scattered_text 24 ''hi'' 50 50 180) < 100 \<and>
   attr_y (scattered_text 24 ''hi'' 50 50 180) < 100 \<and>
   rotationDegrees (scattered_text 24 ''hi'' 50 50 180) < 360"
proof -
  have d: "is_double 100" "is_double (1 / 2)" by code_simp+
  have g: "\<forall>i::nat. is_double (1 / 2) \<and> (0::rat) \<le> 1 / 2 \<and> (1::rat) / 2 < 1"
    using d(2) by simp
  have run: "createWatermarkSVG (\<lambda>i. 1 / 2) ''hi'' 100 100 ''scattered'' =
     Some (Inr \<lparr>svg_width = 100, svg_height = 100,
                svg_children = replicate 50 (scattered_text 24 ''hi'' 50 50 180)\<rparr>)"
    by code_simp
  from scattered_layout [OF d(1) _ d(1) _ g, of "''hi''"] run
  have "\<forall>e \<in> set (replicate 50 (scattered_text 24 ''hi'' 50 50 180)).
       0 \<le> attr_x e \<and> attr_x e < 100 \<and> 0 \<le> attr_y e \<and> attr_y e < 100 \<and>
       0 \<le> rotationDegrees e \<and> rotationDegrees e < 360 \<and> opacity e = 3 / 10"
    by simp
  then have "attr_x (scattered_text 24 ''hi'' 50 50 180) < 100 \<and>
   attr_y (scattered_text 24 ''hi'' 50 50 180) < 100 \<and>
   rotationDegrees (scattered_text 24 ''hi'' 50 50 180) < 360"
    by simp
  with d run show ?thesis by simp
qed

section \<open>The handlers' answers\<close>

text \<open>
  C6. A watermark request that carries a file but no watermark text, neither in the
  query string nor in the body, is answered with status 400 and the body
  \<^verbatim>\<open>{message: "Watermark text is required"}\<close>, after the uploaded file has been
  deleted. No default text stands in for a missing one: whenever the handler hands an
  overlay to the library, the text of every element is the non-empty text the request
  supplied.
\<close>

theorem watermark_text_required:
  "(req_file req = Some f \<and> \<not> truthy (query req ''watermark'') \<and>
    \<not> truthy (body req ''watermark'') \<longrightarrow>
      waterMarkImage w req =
        Some [Unlink (path f),
              Respond 400 (Json [(''message'', ''Watermark text is required'')])]) \<and>
   (waterMarkImage w req = Some effects \<and>
    ToFile (Composite overlay) src dst \<in> set effects \<and>
    e \<in> set (svg_children overlay) \<longrightarrow>
      supplied req ''watermark'' = Some (content e) \<and> content e \<noteq> [])"
proof (rule conjI; rule impI)
  assume "req_file req = Some f \<and> \<not> truthy (query req ''watermark'') \<and>
    \<not> truthy (body req ''watermark'')"
  then show "waterMarkImage w req =
        Some [Unlink (path f),
              Respond 400 (Json [(''message'', ''Watermark text is required'')])]"
    by (simp add: waterMarkImage_def)
next
  assume a: "waterMarkImage w req = Some effects \<and>
    ToFile (Composite overlay) src dst \<in> set effects \<and>
    e \<in> set (svg_children overlay)"
  let ?t = "or_default (or_else (query req ''watermark'') (body req ''watermark'')) ''Watermark''"
  from a obtain wd ht style where
    gen: "createWatermarkSVG (random w) ?t wd ht style = Some (Inr overlay)"
    and tr: "truthy (query req ''watermark'') \<or> truthy (body req ''watermark'')"
    by (auto simp: waterMarkImage_def processing_failed_def Let_def
        split: option.splits if_splits sum.splits prod.splits error.splits)
  have "list_all (\<lambda>e. content e = ?t) (svg_children overlay)"
    using gen by (rule createWatermarkSVG_list_all)
      (simp_all add: diagonal_text_def grid_text_def scattered_text_def)
  with a have c: "content e = ?t" by (simp add: list_all_iff)
  from tr have "truthy (supplied req ''watermark'')" by (simp add: truthy_supplied)
  then obtain s where s: "supplied req ''watermark'' = Some s" "s \<noteq> []"
    by (auto simp: truthy_def split: option.splits)
  then have "?t = s" by (simp add: or_else_supplied or_default_def)
  with c s show "supplied req ''watermark'' = Some (content e) \<and> content e \<noteq> []" by simp
qed

lemma run_query_style:
  "waterMarkImage sample_world
      (sample_request first_upload [(''watermark'', ''hi''), (''style'', ''grid'')] []) =
    Some [ToFile (Composite (grid100 ''hi'')) ''/app/src/images/image-1730000000001-111.png''
            ''/app/./src/images/watermarked-1730000000123-cat.png'',
          Unlink ''/app/src/images/image-1730000000001-111.png'',
          Respond 200 (Json [(''message'', ''Image watermarked successfully!''),
            (''path'', ''/app/./src/images/watermarked-1730000000123-cat.png''),
            (''filename'', ''watermarked-1730000000123-cat.png''),
            (''style'', ''grid'')])]"
  by code_simp

theorem watermark_text_required_witness:
  "req_file (sample_request first_upload [(''style'', ''diagonal'')] []) = Some first_upload \<and>
   \<not> truthy (query (sample_request first_upload [(''style'', ''diagonal'')] []) ''watermark'') \<and>
   \<not> truthy (body (sample_request first_upload [(''style'', ''diagonal'')] []) ''watermark'') \<and>
   waterMarkImage sample_world (sample_request first_upload [(''style'', ''diagonal'')] []) =
     Some [Unlink (path first_upload),
           Respond 400 (Json [(''message'', ''Watermark text is required'')])] \<and>
   supplied (sample_request first_upload [(''watermark'', ''hi''), (''style'', ''grid'')] [])
     ''watermark'' = Some (content (grid_text 24 ''hi'' 20 40))"
proof -
  let ?r = "sample_request first_upload [(''style'', ''diagonal'')] []"
  have h: "req_file ?r = Some first_upload \<and> \<not> truthy (query ?r ''watermark'') \<and>
     \<not> truthy (body ?r ''watermark'')"
    by (simp add: sample_request_def truthy_def)
  from watermark_text_required [of ?r first_upload sample_world] h
  have 1: "waterMarkImage sample_world ?r =
     Some [Unlink (path first_upload),
           Respond 400 (Json [(''message'', ''Watermark text is required'')])]"
    by blast
  let ?q = "sample_request first_upload [(''watermark'', ''hi''), (''style'', ''grid'')] []"
  from watermark_text_required
    [where req = ?q and w = sample_world and overlay = "grid100 ''hi''"
       and src = "''/app/src/images/image-1730000000001-111.png''"
       and dst = "''/app/./src/images/watermarked-1730000000123-cat.png''"
       and e = "grid_text 24 ''hi'' 20 40"
       and effects = "[ToFile (Composite (grid100 ''hi''))
            ''/app/src/images/image-1730000000001-111.png''
            ''/app/./src/images/watermarked-1730000000123-cat.png'',
          Unlink ''/app/src/images/image-1730000000001-111.png'',
          Respond 200 (Json [(''message'', ''Image watermarked successfully!''),
            (''path'', ''/app/./src/images/watermarked-1730000000123-cat.png''),
            (''filename'', ''watermarked-1730000000123-cat.png''),
            (''style'', ''grid'')])]"]
    run_query_style grid100_member
  have 2: "supplied (sample_request first_upload [(''watermark'', ''hi''), (''style'', ''grid'')] [])
     ''watermark'' = Some (content (grid_text 24 ''hi'' 20 40))"
    by simp
  from h 1 2 show ?thesis by blast
qed




text \<open>
  C10. In the resize handler the answer \<^verbatim>\<open>The width and height parameters are required\<close>
  is dead: once the preceding check has let \<^verbatim>\<open>width\<close> and \<^verbatim>\<open>height\<close> through, the
  condition \<^verbatim>\<open>!width && !height\<close> is false, and no request at all receives that answer.
\<close>

theorem resize_required_branch_unreachable:
  "(\<not> (isNaN width \<or> isNaN height \<or> le_zero width \<or> le_zero height) \<longrightarrow>
      \<not> (not_num width \<and> not_num height)) \<and>
   Respond 400 (Json [(''message'', ''The width and height parameters are required'')])
     \<notin> set (resizeImage w req)"
  by (auto simp: resizeImage_def isNaN_def le_zero_def not_num_def Let_def
      split: option.splits jsnum.splits)

theorem resize_required_branch_unreachable_witness:
  "\<not> (isNaN (parseInt (Some ''100'')) \<or> isNaN (parseInt (Some ''100'')) \<or>
      le_zero (parseInt (Some ''100'')) \<or> le_zero (parseInt (Some ''100''))) \<and>
   \<not> (not_num (parseInt (Some ''100'')) \<and> not_num (parseInt (Some ''100''))) \<and>
   Respond 400 (Json [(''message'', ''The width and height parameters are required'')])
     \<notin> set (resizeImage sample_world (sample_request first_upload [] []))"
proof -
  have p: "parseInt (Some ''100'') = Finite 100" by code_simp
  from resize_required_branch_unreachable
    [of "parseInt (Some ''100'')" "parseInt (Some ''100'')" sample_world
        "sample_request first_upload [] []"] p
  show ?thesis by (simp add: isNaN_def le_zero_def)
qed

text \<open>
  C7. The name of a processed file is the prefix of the operation followed by a token
  that makes it unique. The filter handler builds its output path from the original
  name of the upload alone: two filter requests for two uploads of a file named
  \<^verbatim>\<open>cat.png\<close>, stored by multer under different names, are both written to
  \<^verbatim>\<open>filtered-cat.png\<close>.
\<close>

theorem filtered_output_not_unique:
  "filename first_upload \<noteq> filename second_upload \<and>
   path first_upload \<noteq> path second_upload \<and>
   filterImage sample_world (sample_request first_upload [(''filter'', ''blur'')] []) =
     [ToFile (Blur 20) (path first_upload) ''/app/./src/images/filtered-cat.png'',
      Unlink (path first_upload),
      Respond 200 (Json [(''message'', ''Image filtered successfully!''),
        (''path'', ''/app/./src/images/filtered-cat.png''), (''filter'', ''blur'')])] \<and>
   filterImage sample_world (sample_request second_upload [(''filter'', ''blur'')] []) =
     [ToFile (Blur 20) (path second_upload) ''/app/./src/images/filtered-cat.png'',
      Unlink (path second_upload),
      Respond 200 (Json [(''message'', ''Image filtered successfully!''),
        (''path'', ''/app/./src/images/filtered-cat.png''), (''filter'', ''blur'')])]"
  by code_simp

text \<open>
  C9, as stated, at a concrete request: a watermark style supplied only in the body is
  not honoured. The overlay is the diagonal one and the answer reports
  \<^verbatim>\<open>style: 'diagonal'\<close>, where the same style in the query string gives the grid.
\<close>

theorem body_style_not_honoured:
  "waterMarkImage sample_world
      (sample_request first_upload [(''watermark'', ''hi'')] [(''style'', ''grid'')]) =
    Some [ToFile (Composite (diagonal100 ''hi'')) ''/app/src/images/image-1730000000001-111.png''
            ''/app/./src/images/watermarked-1730000000123-cat.png'',
          Unlink ''/app/src/images/image-1730000000001-111.png'',
          Respond 200 (Json [(''message'', ''Image watermarked successfully!''),
            (''path'', ''/app/./src/images/watermarked-1730000000123-cat.png''),
            (''filename'', ''watermarked-1730000000123-cat.png''),
            (''style'', ''diagonal'')])] \<and>
   waterMarkImage sample_world
      (sample_request first_upload [(''watermark'', ''hi''), (''style'', ''grid'')] []) =
    Some [ToFile (Composite (grid100 ''hi'')) ''/app/src/images/image-1730000000001-111.png''
            ''/app/./src/images/watermarked-1730000000123-cat.png'',
          Unlink ''/app/src/images/image-1730000000001-111.png'',
          Respond 200 (Json [(''message'', ''Image watermarked successfully!''),
            (''path'', ''/app/./src/images/watermarked-1730000000123-cat.png''),
            (''filename'', ''watermarked-1730000000123-cat.png''),
            (''style'', ''grid'')])]"
  by code_simp

text \<open>
  C9, amended. The crop coordinates, the filter name and the watermark text are read
  from either location, a non-empty query value taking precedence over the body value:
  what the crop, filter and watermark handlers do depends on the request only through
  the uploaded file and the values so resolved. The watermark style is read from the
  query string alone, \<^verbatim>\<open>diagonal\<close> standing in for a missing or empty one.
\<close>

theorem parameters_resolved:
  "req_file r1 = req_file r2 \<Longrightarrow>
   (supplied r1 ''cropX'' = supplied r2 ''cropX'' \<and>
    supplied r1 ''cropY'' = supplied r2 ''cropY'' \<and>
    supplied r1 ''cropWidth'' = supplied r2 ''cropWidth'' \<and>
    supplied r1 ''cropHeight'' = supplied r2 ''cropHeight'' \<longrightarrow>
      cropImage w r1 = cropImage w r2) \<and>
   (supplied r1 ''filter'' = supplied r2 ''filter'' \<longrightarrow>
      filterImage w r1 = filterImage w r2) \<and>
   (supplied r1 ''watermark'' = supplied r2 ''watermark'' \<and>
    or_default (query r1 ''style'') ''diagonal'' = or_default (query r2 ''style'') ''diagonal'' \<longrightarrow>
      waterMarkImage w r1 = waterMarkImage w r2)"
proof (intro conjI impI)
  assume f: "req_file r1 = req_file r2"
  {
    assume "supplied r1 ''cropX'' = supplied r2 ''cropX'' \<and>
      supplied r1 ''cropY'' = supplied r2 ''cropY'' \<and>
      supplied r1 ''cropWidth'' = supplied r2 ''cropWidth'' \<and>
      supplied r1 ''cropHeight'' = supplied r2 ''cropHeight''"
    with f show "cropImage w r1 = cropImage w r2"
      by (simp add: cropImage_def or_else_supplied)
  }
  {
    assume "supplied r1 ''filter'' = supplied r2 ''filter''"
    with f show "filterImage w r1 = filterImage w r2"
      unfolding filterImage_def or_else_supplied by (cases "req_file r2") simp_all
  }
  {
    assume a: "supplied r1 ''watermark'' = supplied r2 ''watermark'' \<and>
      or_default (query r1 ''style'') ''diagonal'' = or_default (query r2 ''style'') ''diagonal''"
    have t: "(\<not> truthy (query r ''watermark'') \<and> \<not> truthy (body r ''watermark'')) =
       (\<not> truthy (supplied r ''watermark''))" for r
      by (simp add: truthy_supplied)
    from f a show "waterMarkImage w r1 = waterMarkImage w r2"
      unfolding waterMarkImage_def t or_else_supplied by (cases "req_file r2") simp_all
  }
qed

theorem parameters_resolved_witness:
  "cropImage sample_world (sample_request first_upload
      [(''cropX'', ''10''), (''cropWidth'', ''50'')]
      [(''cropY'', ''10''), (''cropWidth'', ''100''), (''cropHeight'', ''100'')]) =
   cropImage sample_world (sample_request first_upload
      [(''cropX'', ''10''), (''cropY'', ''10''), (''cropWidth'', ''50''), (''cropHeight'', ''100'')] []) \<and>
   filterImage sample_world (sample_request first_upload [] [(''filter'', ''blur'')]) =
   filterImage sample_world (sample_request first_upload [(''filter'', ''blur'')] []) \<and>
   waterMarkImage sample_world
      (sample_request first_upload [(''style'', ''grid'')] [(''watermark'', ''hi''), (''style'', ''scattered'')]) =
   waterMarkImage sample_world
      (sample_request first_upload [(''watermark'', ''hi''), (''style'', ''grid'')] [])"
proof -
  let ?c1 = "sample_request first_upload
      [(''cropX'', ''10''), (''cropWidth'', ''50'')]
      [(''cropY'', ''10''), (''cropWidth'', ''100''), (''cropHeight'', ''100'')]"
  let ?c2 = "sample_request first_upload
      [(''cropX'', ''10''), (''cropY'', ''10''), (''cropWidth'', ''50''), (''cropHeight'', ''100'')] []"
  let ?f1 = "sample_request first_upload [] [(''filter'', ''blur'')]"
  let ?f2 = "sample_request first_upload [(''filter'', ''blur'')] []"
  let ?w1 = "sample_request first_upload [(''style'', ''grid'')]
      [(''watermark'', ''hi''), (''style'', ''scattered'')]"
  let ?w2 = "sample_request first_upload [(''watermark'', ''hi''), (''style'', ''grid'')] []"
  have c: "req_file ?c1 = req_file ?c2"
    "supplied ?c1 ''cropX'' = supplied ?c2 ''cropX'' \<and>
     supplied ?c1 ''cropY'' = supplied ?c2 ''cropY'' \<and>
     supplied ?c1 ''cropWidth'' = supplied ?c2 ''cropWidth'' \<and>
     supplied ?c1 ''cropHeight'' = supplied ?c2 ''cropHeight''"
    by (simp_all add: sample_request_def supplied_def)
  have f: "req_file ?f1 = req_file ?f2" "supplied ?f1 ''filter'' = supplied ?f2 ''filter''"
    by (simp_all add: sample_request_def supplied_def)
  have m: "req_file ?w1 = req_file ?w2"
    "supplied ?w1 ''watermark'' = supplied ?w2 ''watermark'' \<and>
     or_default (query ?w1 ''style'') ''diagonal'' = or_default (query ?w2 ''style'') ''diagonal''"
    by (simp_all add: sample_request_def supplied_def or_default_def)
  from parameters_resolved [OF c(1), of sample_world] c(2)
       parameters_resolved [OF f(1), of sample_world] f(2)
       parameters_resolved [OF m(1), of sample_world] m(2)
  show ?thesis by blast
qed

end
